theory Spec2Isabelle
  imports Main "HOL-Library.DAList" "HOL-Library.Multiset"
begin

section \<open>Data model of package luckydraw\<close>

text \<open>
  The Go structs become records. A Go map becomes a duplicate-free association list
  (\<open>('k, 'v) alist\<close>): lookup, store and delete are \<open>DAList.lookup\<close>, \<open>DAList.update\<close> and
  \<open>DAList.delete\<close>. Go's \<open>int\<close> is modelled as \<open>int\<close>: the only arithmetic of the package is
  \<open>Amount - len(winners)\<close> with \<open>Amount \<ge> 1\<close>, which cannot overflow. The mutex is not
  modelled: every exported method holds it from entry to return, so exported methods are
  atomic state transformers.
\<close>

record Prize =
  No :: int
  Name :: string
  Amount :: int
  Desc :: string

record Participant =
  ID :: string
  Name :: string

record Draw =
  name :: string
  prizes :: "(int, Prize) alist"
  participants :: "(string, Participant) alist"
  winners :: "(int, Participant list) alist"

text \<open>
  \<open>SaveData\<close> as produced by the JSON decoder: a map that is missing or \<open>null\<close> in the
  document decodes to a nil map, modelled as \<open>None\<close>.
\<close>

record SaveData =
  Name :: string
  Prizes :: "(int, Prize) alist option"
  Participants :: "(string, Participant) alist option"
  Winners :: "(int, Participant list) alist option"
  LastUpdated :: string
  Checksum :: string

text \<open>
  The package's error values, the errors of the libraries it propagates unchanged
  (\<open>strconv\<close>, \<open>encoding/csv\<close>, \<open>encoding/json\<close>), and the run-time panic of \<open>rand.Intn\<close>.
\<close>

datatype error =
    ErrParticipantsCSV
  | ErrPrizeNo
  | ErrWinnersExistBeforeDraw
  | ErrPrizeAmount
  | ErrNoAvailableParticipants
  | ErrNoOriginalWinnersBeforeRedraw
  | ErrRevokedWinnerNotMatch
  | ErrWinnersNotExistBeforeReDraw
  | ErrRedrawPrizeAmount
  | ErrChecksum
  | ErrSyntax
  | ErrRange
  | ErrRead
  | Panic

subsection \<open>Choices of the run time\<close>

text \<open>
  Go visits the entries of a map in an order chosen by the run time at every \<open>range\<close>
  statement. The order is a parameter of the model: a seed \<open>rs\<close> selects the order in which
  \<open>visit rs xs\<close> lists the entries \<open>xs\<close>; each number picks the next entry among those not
  yet visited. Every seed gives a permutation and every permutation has a seed.
\<close>

fun visit :: "nat list \<Rightarrow> 'a list \<Rightarrow> 'a list" where
  "visit [] xs = xs"
| "visit (r # rs) xs =
     (if xs = [] then []
      else let i = r mod length xs
           in xs ! i # visit rs (take i xs @ drop (Suc i) xs))"

text \<open>
  The choices made during one call: the visiting orders of the three \<open>range\<close> statements
  over maps (in \<open>copyParticipantMap\<close>, over \<open>d.winners\<close>, and in \<open>participantMapToSlice\<close>)
  and the raw outputs of the random generator, one per iteration of the loop of \<open>draw\<close>.
\<close>

record choices =
  rangeCopy :: "nat list"
  rangeWinners :: "nat list"
  rangeSlice :: "nat list"
  randSeq :: "nat \<Rightarrow> nat"

text \<open>\<open>rand.Intn(n)\<close> panics for \<open>n \<le> 0\<close> and otherwise returns a number in \<open>[0, n)\<close>.\<close>

definition Intn :: "nat \<Rightarrow> int \<Rightarrow> int option" where
  "Intn raw n = (if n \<le> 0 then None else Some (int raw mod n))"

section \<open>Prizes and participants\<close>

definition New :: "string \<Rightarrow> Draw" where
  "New nm = \<lparr>name = nm, prizes = DAList.empty, participants = DAList.empty,
              winners = DAList.empty\<rparr>"

definition SetPrize :: "Draw \<Rightarrow> int \<Rightarrow> string \<Rightarrow> int \<Rightarrow> string \<Rightarrow> Draw" where
  "SetPrize d no nm amount desc =
     (let prize = \<lparr>No = no, Prize.Name = nm, Amount = amount, Desc = desc\<rparr>
      in d\<lparr>prizes := DAList.update no prize (prizes d)\<rparr>)"

text \<open>\<open>strings.Trim(s, cutset)\<close>: strip the characters of \<open>cutset\<close> at both ends.\<close>

definition Trim :: "string \<Rightarrow> string \<Rightarrow> string" where
  "Trim s cutset =
     rev (dropWhile (\<lambda>c. c \<in> set cutset) (rev (dropWhile (\<lambda>c. c \<in> set cutset) s)))"

text \<open>
  \<open>strconv.Atoi\<close>: an optional sign, then one or more decimal digits, the value within the
  range of a 64-bit \<open>int\<close>.
\<close>

definition isDigit :: "char \<Rightarrow> bool" where
  "isDigit c = (48 \<le> (of_char c :: nat) \<and> (of_char c :: nat) \<le> 57)"

fun parseDigits :: "string \<Rightarrow> nat \<Rightarrow> nat option" where
  "parseDigits [] acc = Some acc"
| "parseDigits (c # cs) acc =
     (if isDigit c then parseDigits cs (acc * 10 + (of_char c - 48)) else None)"

definition Atoi :: "string \<Rightarrow> error + int" where
  "Atoi s =
     (let neg = (s \<noteq> [] \<and> hd s = CHR ''-'');
          ds = (if s \<noteq> [] \<and> (hd s = CHR ''-'' \<or> hd s = CHR ''+'') then tl s else s)
      in if ds = [] then Inl ErrSyntax
         else case parseDigits ds 0 of
                None \<Rightarrow> Inl ErrSyntax
              | Some n \<Rightarrow>
                  (let v = (if neg then - int n else int n)
                   in if v < - (2 ^ 63) \<or> 2 ^ 63 - 1 < v then Inl ErrRange else Inr v))"

text \<open>
  The loop of \<open>LoadPrizesCSV\<close> over the rows after the header. It stores into the map as it
  goes and returns at the first bad row with what it has stored so far.
\<close>

fun loadPrizeRows ::
  "string list list \<Rightarrow> (int, Prize) alist \<Rightarrow> error option \<times> (int, Prize) alist" where
  "loadPrizeRows [] m = (None, m)"
| "loadPrizeRows (row # rows) m =
     (if length row \<noteq> 4 then (Some ErrParticipantsCSV, m)
      else case Atoi (Trim (row ! 0) '' '') of
             Inl err \<Rightarrow> (Some err, m)
           | Inr no \<Rightarrow>
               (case Atoi (Trim (row ! 2) '' '') of
                  Inl err \<Rightarrow> (Some err, m)
                | Inr amount \<Rightarrow>
                    loadPrizeRows rows
                      (DAList.update no
                         \<lparr>No = no, Prize.Name = row ! 1, Amount = amount, Desc = row ! 3\<rparr> m)))"

text \<open>
  The argument is what \<open>reader.ReadAll()\<close> returned: an error, or the rows. The map is
  replaced by a fresh one before the loop (\<open>i\<close> starts at 1: the header row is skipped).
\<close>

definition LoadPrizesCSV :: "Draw \<Rightarrow> error + string list list \<Rightarrow> error option \<times> Draw" where
  "LoadPrizesCSV d r =
     (case r of
        Inl err \<Rightarrow> (Some err, d)
      | Inr rows \<Rightarrow>
          (let (e, m) = loadPrizeRows (drop 1 rows) DAList.empty
           in (e, d\<lparr>prizes := m\<rparr>)))"

fun loadParticipantRows ::
  "string list list \<Rightarrow> (string, Participant) alist \<Rightarrow>
   error option \<times> (string, Participant) alist" where
  "loadParticipantRows [] m = (None, m)"
| "loadParticipantRows (row # rows) m =
     (if length row \<noteq> 2 then (Some ErrParticipantsCSV, m)
      else loadParticipantRows rows
             (DAList.update (row ! 0) \<lparr>ID = row ! 0, Name = row ! 1\<rparr> m))"

definition LoadParticipantsCSV ::
  "Draw \<Rightarrow> error + string list list \<Rightarrow> error option \<times> Draw" where
  "LoadParticipantsCSV d r =
     (case r of
        Inl err \<Rightarrow> (Some err, d)
      | Inr rows \<Rightarrow>
          (let (e, m) = loadParticipantRows (drop 1 rows) DAList.empty
           in (e, d\<lparr>participants := m\<rparr>)))"

definition participantMapToSlice ::
  "nat list \<Rightarrow> (string, Participant) alist \<Rightarrow> Participant list" where
  "participantMapToSlice ord m = map snd (visit ord (DAList.impl_of m))"

definition participantSliceToMap :: "Participant list \<Rightarrow> (string, Participant) alist" where
  "participantSliceToMap s = fold (\<lambda>p m. DAList.update (ID p) p m) s DAList.empty"

definition copyParticipantMap ::
  "nat list \<Rightarrow> (string, Participant) alist \<Rightarrow> (string, Participant) alist" where
  "copyParticipantMap ord m =
     fold (\<lambda>(k, v) copiedMap. DAList.update k v copiedMap)
       (visit ord (DAList.impl_of m)) DAList.empty"

section \<open>Availability\<close>

definition availableParticipants :: "choices \<Rightarrow> Draw \<Rightarrow> int \<Rightarrow> Participant list" where
  "availableParticipants c d prizeNo =
     (let participants0 = copyParticipantMap (rangeCopy c) (participants d);
          participants1 =
            fold (\<lambda>(_, ws) ps. fold (\<lambda>winner ps'. DAList.delete (ID winner) ps') ws ps)
              (visit (rangeWinners c) (DAList.impl_of (winners d))) participants0
      in participantMapToSlice (rangeSlice c) participants1)"


definition Winners :: "Draw \<Rightarrow> int \<Rightarrow> Participant list" where
  "Winners d prizeNo =
     (case DAList.lookup (winners d) prizeNo of None \<Rightarrow> [] | Some ws \<Rightarrow> ws)"

section \<open>Sampling\<close>

text \<open>
  \<open>removeParticipant\<close> overwrites position \<open>i\<close> with the last element and drops the last
  position. The element type is left open; the package uses it at \<open>Participant\<close>.
\<close>

definition removeParticipant :: "'a list \<Rightarrow> int \<Rightarrow> 'a list" where
  "removeParticipant s i =
     (let l = int (length s)
      in if l \<le> 0 then s
         else if i < 0 \<or> i > l - 1 then s
         else butlast (s[nat i := last s]))"

text \<open>
  The loop of \<open>draw\<close>, with its counter \<open>i\<close>, the shrinking slice and the winners so far.
  \<open>None\<close> is the panic of \<open>rand.Intn\<close> on an empty slice.
\<close>

function draw_loop ::
  "(nat \<Rightarrow> nat) \<Rightarrow> int \<Rightarrow> int \<Rightarrow> 'a list \<Rightarrow> 'a list \<Rightarrow> 'a list option" where
  "draw_loop rnd amount i ps ws =
     (if i < amount then
        (case Intn (rnd (nat i)) (int (length ps)) of
           None \<Rightarrow> None
         | Some index \<Rightarrow>
             draw_loop rnd amount (i + 1) (removeParticipant ps index) (ws @ [ps ! nat index]))
      else Some ws)"
  by pat_completeness auto
termination
  by (relation "measure (\<lambda>(rnd, amount, i, ps, ws). nat (amount - i))") auto

declare draw_loop.simps [simp del]

definition draw :: "(nat \<Rightarrow> nat) \<Rightarrow> int \<Rightarrow> 'a list \<Rightarrow> 'a list option" where
  "draw rnd prizeAmount ps =
     (if prizeAmount \<le> 0 \<or> int (length ps) \<le> 0 then Some []
      else let amount = (if int (length ps) < prizeAmount then int (length ps) else prizeAmount)
           in draw_loop rnd amount 0 ps [])"

section \<open>Draw, Revoke, Redraw\<close>

text \<open>
  The Go methods return \<open>(winners, err)\<close>; with an error the slice returned is always
  empty, so the pair is modelled as a sum. The second component is the session afterwards.
\<close>

definition Draw :: "choices \<Rightarrow> Draw \<Rightarrow> int \<Rightarrow> (error + Participant list) \<times> Draw" where
  "Draw c d prizeNo =
     (case DAList.lookup (prizes d) prizeNo of
        None \<Rightarrow> (Inl ErrPrizeNo, d)
      | Some prize \<Rightarrow>
          (let amount = Amount prize
           in if amount < 1 then (Inl ErrPrizeAmount, d)
              else if DAList.lookup (winners d) prizeNo \<noteq> None
                then (Inl ErrWinnersExistBeforeDraw, d)
              else let ps = availableParticipants c d prizeNo
                   in if length ps = 0 then (Inl ErrNoAvailableParticipants, d)
                      else case draw (randSeq c) amount ps of
                             None \<Rightarrow> (Inl Panic, d)
                           | Some ws \<Rightarrow>
                               (Inr ws, d\<lparr>winners := DAList.update prizeNo ws (winners d)\<rparr>)))"

text \<open>The loop of \<open>Revoke\<close> over the revoked winners, on the local map of the winners.\<close>

fun revokeLoop ::
  "Participant list \<Rightarrow> (string, Participant) alist \<Rightarrow> error + (string, Participant) alist"
  where
  "revokeLoop [] m = Inr m"
| "revokeLoop (revokedWinner # rest) m =
     (if DAList.lookup m (ID revokedWinner) = None then Inl ErrRevokedWinnerNotMatch
      else revokeLoop rest (DAList.delete (ID revokedWinner) m))"

definition Revoke :: "choices \<Rightarrow> Draw \<Rightarrow> int \<Rightarrow> Participant list \<Rightarrow> error option \<times> Draw" where
  "Revoke c d prizeNo revokedWinners =
     (case DAList.lookup (prizes d) prizeNo of
        None \<Rightarrow> (Some ErrPrizeNo, d)
      | Some prize \<Rightarrow>
          (if Amount prize < 1 then (Some ErrPrizeAmount, d)
           else (case DAList.lookup (winners d) prizeNo of
                   None \<Rightarrow> (Some ErrNoOriginalWinnersBeforeRedraw, d)
                 | Some ws \<Rightarrow>
                     (case revokeLoop revokedWinners (participantSliceToMap ws) of
                        Inl err \<Rightarrow> (Some err, d)
                      | Inr originalWinnerMap \<Rightarrow>
                          (None,
                           d\<lparr>winners :=
                               DAList.update prizeNo
                                 (participantMapToSlice (rangeSlice c) originalWinnerMap)
                                 (winners d)\<rparr>)))))"

definition Redraw ::
  "choices \<Rightarrow> Draw \<Rightarrow> int \<Rightarrow> int \<Rightarrow> (error + Participant list) \<times> Draw" where
  "Redraw c d prizeNo amount =
     (case DAList.lookup (prizes d) prizeNo of
        None \<Rightarrow> (Inl ErrPrizeNo, d)
      | Some prize \<Rightarrow>
          (if Amount prize < 1 then (Inl ErrPrizeAmount, d)
           else (case DAList.lookup (winners d) prizeNo of
                   None \<Rightarrow> (Inl ErrWinnersNotExistBeforeReDraw, d)
                 | Some old \<Rightarrow>
                     (if amount > Amount prize - int (length old)
                      then (Inl ErrRedrawPrizeAmount, d)
                      else (let ps = availableParticipants c d prizeNo
                            in if length ps = 0 then (Inl ErrNoAvailableParticipants, d)
                               else (case draw (randSeq c) amount ps of
                                       None \<Rightarrow> (Inl Panic, d)
                                     | Some ws \<Rightarrow>
                                         (Inr ws,
                                          d\<lparr>winners :=
                                              DAList.update prizeNo (old @ ws)
                                                (winners d)\<rparr>)))))))"

definition AllWinners :: "Draw \<Rightarrow> (int, Participant list) alist" where
  "AllWinners d = winners d"

definition ClearWinners :: "Draw \<Rightarrow> int \<Rightarrow> Draw" where
  "ClearWinners d prizeNo = d\<lparr>winners := DAList.update prizeNo [] (winners d)\<rparr>"

definition ClearAllWinners :: "Draw \<Rightarrow> Draw" where
  "ClearAllWinners d = d\<lparr>winners := DAList.empty\<rparr>"

section \<open>Checksum and persistence\<close>

text \<open>\<open>strconv.FormatInt(n, 10)\<close>.\<close>

fun digitsOf :: "nat \<Rightarrow> string" where
  "digitsOf n =
     (if n < 10 then [''0123456789'' ! n]
      else digitsOf (n div 10) @ [''0123456789'' ! (n mod 10)])"

declare digitsOf.simps [simp del]

definition FormatInt :: "int \<Rightarrow> string" where
  "FormatInt n = (if n < 0 then CHR ''-'' # digitsOf (nat (- n)) else digitsOf (nat n))"

text \<open>
  The bytes written to the hash by \<open>computeWinnersHash\<close>: for every prize number in
  ascending order its decimal form, then the ID and the name of each of its winners.
  \<open>keys\<close> is the slice \<open>arr\<close> as collected by the \<open>range\<close> over the map (a nil map has no
  entries) and then sorted.
\<close>

definition winnersBytes :: "nat list \<Rightarrow> (int, Participant list) alist option \<Rightarrow> string" where
  "winnersBytes ord w =
     (let entries = (case w of None \<Rightarrow> [] | Some m \<Rightarrow> DAList.impl_of m);
          arr = sort (map fst (visit ord entries))
      in concat (map (\<lambda>prizeNo.
                        FormatInt prizeNo @
                        concat (map (\<lambda>winner. ID winner @ Participant.Name winner)
                                  (case map_of entries prizeNo of None \<Rightarrow> [] | Some ws \<Rightarrow> ws)))
                   arr))"

text \<open>
  MD5 is a parameter: \<open>md5\<close> maps the bytes written to the 16 bytes of the digest.
  Writing to a \<open>hash.Hash\<close> piece by piece hashes the concatenation.
\<close>

definition computeWinnersHash ::
  "(string \<Rightarrow> string) \<Rightarrow> nat list \<Rightarrow> (int, Participant list) alist option \<Rightarrow> string" where
  "computeWinnersHash md5 ord w = md5 (winnersBytes ord w)"

text \<open>\<open>fmt.Sprintf("%X", bytes)\<close>: two upper-case hexadecimal digits per byte.\<close>

definition hexX :: "string \<Rightarrow> string" where
  "hexX bs =
     concat (map (\<lambda>b. [''0123456789ABCDEF'' ! ((of_char b :: nat) div 16),
                        ''0123456789ABCDEF'' ! ((of_char b :: nat) mod 16)]) bs)"

text \<open>
  \<open>Save\<close> without the encoding: the record handed to the JSON encoder. The time stamp is
  an argument.
\<close>

definition Save :: "(string \<Rightarrow> string) \<Rightarrow> nat list \<Rightarrow> string \<Rightarrow> Draw \<Rightarrow> SaveData" where
  "Save md5 ord tm d =
     \<lparr>SaveData.Name = name d, Prizes = Some (prizes d), Participants = Some (participants d),
      Winners = Some (winners d), LastUpdated = tm,
      Checksum = hexX (computeWinnersHash md5 ord (Some (winners d)))\<rparr>"

text \<open>
  \<open>Load\<close> after the decoding: the argument is what \<open>dec.Decode\<close> produced, an error or the
  record.
\<close>

definition Load ::
  "(string \<Rightarrow> string) \<Rightarrow> nat list \<Rightarrow> Draw \<Rightarrow> error + SaveData \<Rightarrow> error option \<times> Draw" where
  "Load md5 ord d r =
     (case r of
        Inl err \<Rightarrow> (Some err, d)
      | Inr data \<Rightarrow>
          (let checksum = computeWinnersHash md5 ord (SaveData.Winners data)
           in if hexX checksum \<noteq> Checksum data then (Some ErrChecksum, d)
              else let d1 = d\<lparr>prizes := (case Prizes data of None \<Rightarrow> DAList.empty | Some m \<Rightarrow> m)\<rparr>;
                       d2 = d1\<lparr>participants :=
                                 (case Participants data of None \<Rightarrow> DAList.empty | Some m \<Rightarrow> m)\<rparr>;
                       d3 = d2\<lparr>winners :=
                                 (case SaveData.Winners data of None \<Rightarrow> DAList.empty | Some m \<Rightarrow> m)\<rparr>
                   in (None, d3)))"

section \<open>Vocabulary of the properties\<close>

text \<open>
  The IDs of all current winners, prize after prize, and the entries of the participants
  map whose key is not among them: the available participants.
\<close>

definition winnerIDs :: "Draw \<Rightarrow> string list" where
  "winnerIDs d = map ID (concat (map snd (DAList.impl_of (winners d))))"


text \<open>A session used to run the operations on concrete inputs.\<close>

definition firstChoices :: choices where
  "firstChoices = \<lparr>rangeCopy = [], rangeWinners = [], rangeSlice = [], randSeq = (\<lambda>i. 0)\<rparr>"

definition abcRows :: "string list list" where
  "abcRows = [[''id'', ''name''], [''a'', ''A''], [''b'', ''B''], [''c'', ''C'']]"

definition abcSession :: Draw where
  "abcSession = snd (LoadParticipantsCSV (SetPrize (New ''s'') 1 ''p'' 2 '''') (Inr abcRows))"

text \<open>
  What a successful \<open>Revoke\<close> stores: the values of the map built from the winners, without
  the revoked keys, in the order in which the run time visits that map.
\<close>

definition remaining :: "nat list \<Rightarrow> Participant list \<Rightarrow> Participant list \<Rightarrow> Participant list"
  where
  "remaining ord ws rs =
     participantMapToSlice ord
       (fold (\<lambda>w ps. DAList.delete (ID w) ps) rs (participantSliceToMap ws))"

text \<open>Sessions reached from \<open>abcSession\<close>, used to run the operations on concrete inputs.\<close>

abbreviation pA :: Participant where "pA \<equiv> \<lparr>ID = ''a'', Name = ''A''\<rparr>"
abbreviation pB :: Participant where "pB \<equiv> \<lparr>ID = ''b'', Name = ''B''\<rparr>"
abbreviation pC :: Participant where "pC \<equiv> \<lparr>ID = ''c'', Name = ''C''\<rparr>"
abbreviation prizeP :: "int \<Rightarrow> Prize" where
  "prizeP n \<equiv> \<lparr>No = 1, Prize.Name = ''p'', Amount = n, Desc = []\<rparr>"
abbreviation abcMap :: "(string, Participant) alist" where
  "abcMap \<equiv> DAList.update ''c'' pC (DAList.update ''b'' pB (DAList.update ''a'' pA DAList.empty))"

definition drawnSession :: Draw where
  "drawnSession = snd (Draw firstChoices abcSession 1)"


definition roomySession :: Draw where
  "roomySession = SetPrize drawnSession 1 ''p'' 3 []"

definition tightSession :: Draw where
  "tightSession = SetPrize drawnSession 1 ''p'' 1 []"

text \<open>
  A stand-in for MD5, used only to run \<open>Load\<close> on concrete records; the properties are
  proved for every digest function.
\<close>

definition plainDigest :: "string \<Rightarrow> string" where
  "plainDigest bs = bs"

section \<open>Map iteration and availability\<close>

lemma mset_visit: "mset (visit rs xs) = mset xs"
proof (induction rs arbitrary: xs)
  case Nil show ?case by simp
next
  case (Cons r rs)
  show ?case
  proof (cases "xs = []")
    case True then show ?thesis by simp
  next
    case False
    define i where "i = r mod length xs"
    have i: "i < length xs" using False by (simp add: i_def)
    have "mset xs = mset (take i xs @ xs ! i # drop (Suc i) xs)"
      using id_take_nth_drop[OF i] by simp
    then show ?thesis using False Cons.IH[of "take i xs @ drop (Suc i) xs"]
      by (simp add: i_def[symmetric] Let_def)
  qed
qed

lemma set_visit: "set (visit rs xs) = set xs"
  using mset_visit[of rs xs] by (rule mset_eq_setD)

lemma length_visit: "length (visit rs xs) = length xs"
  using mset_visit[of rs xs] by (rule mset_eq_length)

lemma distinct_map_visit: "distinct (map f (visit rs xs)) = distinct (map f xs)"
proof -
  have "mset (map f (visit rs xs)) = mset (map f xs)" by (simp add: mset_visit)
  then show ?thesis by (rule mset_eq_imp_distinct_iff)
qed

lemma update_fresh: "k \<notin> fst ` set al \<Longrightarrow> AList.update k v al = al @ [(k, v)]"
  by (induction al) auto

lemma impl_of_fold_update:
  "distinct (map fst (DAList.impl_of m @ xs)) \<Longrightarrow>
   DAList.impl_of (fold (\<lambda>(k, v) c. DAList.update k v c) xs m) = DAList.impl_of m @ xs"
proof (induction xs arbitrary: m)
  case Nil show ?case by simp
next
  case (Cons x xs)
  obtain k v where x: "x = (k, v)" by (cases x)
  have fresh: "k \<notin> fst ` set (DAList.impl_of m)" using Cons.prems by (auto simp: x)
  have step: "DAList.impl_of (DAList.update k v m) = DAList.impl_of m @ [(k, v)]"
    by (simp add: update.rep_eq update_fresh[OF fresh])
  have "distinct (map fst (DAList.impl_of (DAList.update k v m) @ xs))"
    using Cons.prems by (simp add: step x)
  from Cons.IH[OF this] show ?case by (simp add: x step)
qed

lemma impl_of_copyParticipantMap:
  "DAList.impl_of (copyParticipantMap ord m) = visit ord (DAList.impl_of m)"
  unfolding copyParticipantMap_def
  by (subst impl_of_fold_update) (simp_all add: empty.rep_eq distinct_map_visit)

lemma impl_of_fold_delete:
  "DAList.impl_of (fold (\<lambda>w ps. DAList.delete (ID w) ps) ws m) =
   filter (\<lambda>(k, p). k \<notin> ID ` set ws) (DAList.impl_of m)"
proof (induction ws arbitrary: m)
  case Nil show ?case by simp
next
  case (Cons w ws)
  have "DAList.impl_of (DAList.delete (ID w) m) =
        filter (\<lambda>(k, p). k \<noteq> ID w) (DAList.impl_of m)"
    by (auto simp: delete.rep_eq AList.delete_eq case_prod_unfold intro!: filter_cong)
  then show ?case using Cons.IH[of "DAList.delete (ID w) m"]
    by (auto simp: case_prod_unfold intro!: filter_cong)
qed

lemma impl_of_fold_fold_delete:
  "DAList.impl_of (fold (\<lambda>(u, ws) ps. fold (\<lambda>w ps'. DAList.delete (ID w) ps') ws ps) es m) =
   filter (\<lambda>(k, p). k \<notin> ID ` (\<Union>e \<in> set es. set (snd e))) (DAList.impl_of m)"
proof (induction es arbitrary: m)
  case Nil show ?case by simp
next
  case (Cons e es)
  obtain u ws where e: "e = (u, ws)" by (cases e)
  let ?f = "\<lambda>(u, ws) ps. fold (\<lambda>w ps'. DAList.delete (ID w) ps') ws ps"
  have "DAList.impl_of (fold ?f (e # es) m) =
        filter (\<lambda>(k, p). k \<notin> ID ` (\<Union>e \<in> set es. set (snd e)))
          (DAList.impl_of (fold (\<lambda>w ps'. DAList.delete (ID w) ps') ws m))"
    using Cons.IH[of "fold (\<lambda>w ps'. DAList.delete (ID w) ps') ws m"] by (simp add: e)
  also have "\<dots> = filter (\<lambda>(k, p). k \<notin> ID ` (\<Union>e \<in> set (e # es). set (snd e)))
                     (DAList.impl_of m)"
    by (auto simp: impl_of_fold_delete e intro!: filter_cong)
  finally show ?case .
qed

lemma set_winnerIDs:
  "set (winnerIDs d) = ID ` (\<Union>e \<in> set (DAList.impl_of (winners d)). set (snd e))"
  by (auto simp: winnerIDs_def)

lemma availableParticipants_eq:
  "availableParticipants c d prizeNo =
   map snd (visit (rangeSlice c)
              (filter (\<lambda>(k, p). k \<notin> set (winnerIDs d))
                 (visit (rangeCopy c) (DAList.impl_of (participants d)))))"
  by (simp add: availableParticipants_def participantMapToSlice_def Let_def
        impl_of_fold_fold_delete impl_of_copyParticipantMap set_visit set_winnerIDs)


section \<open>Sampling without replacement\<close>

lemma Intn_Some: "Intn raw n = Some index \<Longrightarrow> 0 \<le> index \<and> index < n"
  by (auto simp: Intn_def split: if_splits)

lemma Intn_total: "0 < n \<Longrightarrow> \<exists>index. Intn raw n = Some index"
  by (simp add: Intn_def)

lemma removeParticipant_in_range:
  assumes "0 \<le> index" "index < int (length ps)"
  shows "removeParticipant ps index = butlast (ps[nat index := last ps])"
  using assms by (simp add: removeParticipant_def Let_def)

lemma mset_removeParticipant:
  assumes "0 \<le> index" "index < int (length ps)"
  shows "add_mset (ps ! nat index) (mset (removeParticipant ps index)) = mset ps"
proof -
  define i where "i = nat index"
  have i: "i < length ps" using assms by (simp add: i_def)
  then have ne: "ps \<noteq> []" by auto
  have split: "ps = butlast ps @ [last ps]" using ne by simp
  show ?thesis
  proof (cases "i = length ps - 1")
    case True
    then have "ps ! i = last ps" using ne by (simp add: last_conv_nth)
    then have "ps[i := last ps] = ps" by (metis list_update_id)
    then show ?thesis
      using removeParticipant_in_range[OF assms] \<open>ps ! i = last ps\<close> split
      by (metis i_def mset.simps(2) mset_append union_mset_add_mset_right add.right_neutral mset.simps(1))
  next
    case False
    then have ib: "i < length (butlast ps)" using i by simp
    have "ps[i := last ps] = (butlast ps)[i := last ps] @ [last ps]"
      using ib split by (metis list_update_append1)
    then have r: "removeParticipant ps index = (butlast ps)[i := last ps]"
      using removeParticipant_in_range[OF assms] by (simp add: i_def)
    have nth: "ps ! i = butlast ps ! i" using ib by (simp add: nth_butlast)
    have "add_mset (butlast ps ! i) (mset ((butlast ps)[i := last ps])) =
          add_mset (last ps) (mset (butlast ps))"
      using ib by (simp add: mset_update)
    also have "\<dots> = mset ps" using split by (metis mset.simps(1) mset.simps(2) mset_append union_mset_add_mset_right add.right_neutral)
    finally show ?thesis using r nth by (simp add: i_def)
  qed
qed

lemma length_removeParticipant:
  assumes "0 \<le> index" "index < int (length ps)"
  shows "length (removeParticipant ps index) = length ps - 1"
  using assms by (simp add: removeParticipant_in_range)


lemma draw_loop_result:
  "0 \<le> i \<Longrightarrow> i \<le> amount \<Longrightarrow> amount - i \<le> int (length ps) \<Longrightarrow>
   \<exists>ws'. draw_loop rnd amount i ps ws = Some (ws @ ws') \<and>
         int (length ws') = amount - i \<and> mset ws' \<subseteq># mset ps"
proof (induction rnd amount i ps ws rule: draw_loop.induct)
  case (1 rnd amount i ps ws)
  show ?case
  proof (cases "i < amount")
    case False
    then show ?thesis using "1.prems" by (subst draw_loop.simps) simp
  next
    case True
    then have pos: "0 < int (length ps)" using "1.prems" by linarith
    then obtain index where idx: "Intn (rnd (nat i)) (int (length ps)) = Some index"
      using Intn_total by blast
    have rng: "0 \<le> index" "index < int (length ps)" using Intn_Some[OF idx] by auto
    have len: "length (removeParticipant ps index) = length ps - 1"
      using rng by (rule length_removeParticipant)
    have "\<exists>ws'. draw_loop rnd amount (i + 1) (removeParticipant ps index) (ws @ [ps ! nat index]) =
                 Some ((ws @ [ps ! nat index]) @ ws') \<and>
               int (length ws') = amount - (i + 1) \<and>
               mset ws' \<subseteq># mset (removeParticipant ps index)"
      using "1.IH"[OF True idx] "1.prems" True len pos by simp
    then obtain ws' where
      r: "draw_loop rnd amount (i + 1) (removeParticipant ps index) (ws @ [ps ! nat index]) =
            Some ((ws @ [ps ! nat index]) @ ws')"
      and l: "int (length ws') = amount - (i + 1)"
      and m: "mset ws' \<subseteq># mset (removeParticipant ps index)" by blast
    have "draw_loop rnd amount i ps ws = Some (ws @ (ps ! nat index # ws'))"
      using True idx r by (subst draw_loop.simps) simp
    moreover have "int (length (ps ! nat index # ws')) = amount - i" using l by simp
    moreover have "mset (ps ! nat index # ws') \<subseteq># mset ps"
      using m mset_removeParticipant[OF rng]
      by (metis mset.simps(2) mset_subset_eq_add_mset_cancel)
    ultimately show ?thesis by blast
  qed
qed



lemma draw_result:
  "\<exists>ws. draw rnd n ps = Some ws \<and> mset ws \<subseteq># mset ps \<and>
        length ws = (if n \<le> 0 then 0 else min (nat n) (length ps))"
proof (cases "n \<le> 0 \<or> int (length ps) \<le> 0")
  case True
  then show ?thesis by (auto simp: draw_def)
next
  case False
  define amount where "amount = (if int (length ps) < n then int (length ps) else n)"
  have a: "0 \<le> (0::int)" "0 \<le> amount" "amount - 0 \<le> int (length ps)"
    using False by (auto simp: amount_def)
  from draw_loop_result[OF a, of rnd "[]"] obtain ws' where
    r: "draw_loop rnd amount 0 ps [] = Some ws'" and l: "int (length ws') = amount"
    and m: "mset ws' \<subseteq># mset ps" by auto
  have "draw rnd n ps = Some ws'" using False r by (simp add: draw_def Let_def amount_def)
  moreover have "length ws' = min (nat n) (length ps)"
    using l False by (cases "int (length ps) < n") (simp_all add: amount_def min_def, linarith+)
  ultimately show ?thesis using m False by auto
qed

section \<open>Availability does not depend on the prize\<close>


section \<open>Draw\<close>














section \<open>Revoke\<close>

lemma lookup_None_iff: "DAList.lookup m k = None \<longleftrightarrow> k \<notin> fst ` set (DAList.impl_of m)"
  by (simp add: lookup.rep_eq map_of_eq_None_iff)

lemma keys_delete:
  "fst ` set (DAList.impl_of (DAList.delete k m)) = fst ` set (DAList.impl_of m) - {k}"
  by (auto simp: delete.rep_eq AList.delete_eq)

lemma revokeLoop_eq:
  "revokeLoop rs m =
     (if distinct (map ID rs) \<and> ID ` set rs \<subseteq> fst ` set (DAList.impl_of m)
      then Inr (fold (\<lambda>w ps. DAList.delete (ID w) ps) rs m)
      else Inl ErrRevokedWinnerNotMatch)"
proof (induction rs arbitrary: m)
  case Nil show ?case by simp
next
  case (Cons r rs)
  show ?case
  proof (cases "DAList.lookup m (ID r) = None")
    case True
    then show ?thesis by (simp add: lookup_None_iff)
  next
    case False
    then have "ID r \<in> fst ` set (DAList.impl_of m)" by (simp add: lookup_None_iff)
    then show ?thesis using False Cons.IH[of "DAList.delete (ID r) m"]
      by (auto simp: keys_delete) (metis image_eqI)+
  qed
qed

lemma set_AList_update:
  "distinct (map fst al) \<Longrightarrow>
   set (AList.update k v al) = insert (k, v) {e \<in> set al. fst e \<noteq> k}"
  by (induction al) (auto simp: rev_image_eqI)

lemma set_impl_of_update:
  "set (DAList.impl_of (DAList.update k v m)) =
   insert (k, v) {e \<in> set (DAList.impl_of m). fst e \<noteq> k}"
  by (simp add: update.rep_eq set_AList_update)

lemma participantSliceToMap_entries_aux:
  "(\<forall>(k, p) \<in> set (DAList.impl_of m). ID p = k \<and> p \<in> S) \<Longrightarrow> set ws \<subseteq> S \<Longrightarrow>
   (\<forall>(k, p) \<in> set (DAList.impl_of (fold (\<lambda>p m. DAList.update (ID p) p m) ws m)).
      ID p = k \<and> p \<in> S) \<and>
   fst ` set (DAList.impl_of (fold (\<lambda>p m. DAList.update (ID p) p m) ws m)) =
     fst ` set (DAList.impl_of m) \<union> ID ` set ws"
proof (induction ws arbitrary: m)
  case Nil then show ?case by simp
next
  case (Cons w ws)
  have a: "\<forall>(k, p) \<in> set (DAList.impl_of (DAList.update (ID w) w m)). ID p = k \<and> p \<in> S"
    using Cons.prems by (auto simp: set_impl_of_update)
  have k: "fst ` set (DAList.impl_of (DAList.update (ID w) w m)) =
           insert (ID w) (fst ` set (DAList.impl_of m))"
    by (simp add: update.rep_eq dom_update)
  from Cons.IH[OF a] Cons.prems(2) k show ?case by auto
qed

lemma participantSliceToMap_entries:
  "(k, p) \<in> set (DAList.impl_of (participantSliceToMap ws)) \<Longrightarrow> ID p = k \<and> p \<in> set ws"
  using participantSliceToMap_entries_aux[of DAList.empty "set ws" ws]
  by (auto simp: participantSliceToMap_def empty.rep_eq)

lemma participantSliceToMap_keys:
  "fst ` set (DAList.impl_of (participantSliceToMap ws)) = ID ` set ws"
  using participantSliceToMap_entries_aux[of DAList.empty "set ws" ws]
  by (auto simp: participantSliceToMap_def empty.rep_eq)

lemma participantSliceToMap_distinct:
  assumes "distinct (map ID ws)"
  shows "DAList.impl_of (participantSliceToMap ws) = map (\<lambda>p. (ID p, p)) ws"
proof -
  have "distinct (map fst (DAList.impl_of DAList.empty @ map (\<lambda>p. (ID p, p)) ws))"
    using assms by (simp add: empty.rep_eq comp_def)
  from impl_of_fold_update[OF this]
  have "DAList.impl_of (fold (\<lambda>(k, v) c. DAList.update k v c) (map (\<lambda>p. (ID p, p)) ws) DAList.empty)
        = map (\<lambda>p. (ID p, p)) ws" by (simp add: empty.rep_eq)
  moreover have "fold (\<lambda>(k, v) c. DAList.update k v c) (map (\<lambda>p. (ID p, p)) ws) m =
                 fold (\<lambda>p m. DAList.update (ID p) p m) ws m" for m
    by (simp add: fold_map comp_def)
  ultimately show ?thesis by (simp add: participantSliceToMap_def)
qed

lemma remaining_props:
  "set (remaining ord ws rs) \<subseteq> set ws \<and> distinct (map ID (remaining ord ws rs)) \<and>
   ID ` set (remaining ord ws rs) = ID ` set ws - ID ` set rs"
proof -
  let ?es = "filter (\<lambda>(k, p). k \<notin> ID ` set rs) (DAList.impl_of (participantSliceToMap ws))"
  have r: "remaining ord ws rs = map snd (visit ord ?es)"
    by (simp add: remaining_def participantMapToSlice_def impl_of_fold_delete)
  have ent: "\<And>e. e \<in> set ?es \<Longrightarrow> ID (snd e) = fst e \<and> snd e \<in> set ws"
    using participantSliceToMap_entries by auto
  then have ent': "\<And>e. e \<in> set (visit ord ?es) \<Longrightarrow> ID (snd e) = fst e \<and> snd e \<in> set ws"
    by (simp add: set_visit)
  have eq: "map (ID \<circ> snd) (visit ord ?es) = map fst (visit ord ?es)"
    by (rule map_cong) (simp_all add: ent')
  have "distinct (map (ID \<circ> snd) (visit ord ?es))"
    unfolding eq by (simp add: distinct_map_visit distinct_map_fst_filter)
  then have d: "distinct (map ID (remaining ord ws rs))" by (simp add: r)
  have s: "set (remaining ord ws rs) \<subseteq> set ws" using ent' by (auto simp: r)
  have "ID ` set (remaining ord ws rs) = fst ` set ?es"
    using ent by (force simp: r set_visit image_iff)
  also have "\<dots> = fst ` set (DAList.impl_of (participantSliceToMap ws)) - ID ` set rs"
    by force
  also have "\<dots> = ID ` set ws - ID ` set rs"
    by (simp only: participantSliceToMap_keys)
  finally show ?thesis using d s by blast
qed

lemma remaining_distinct:
  assumes "distinct (map ID ws)"
  shows "mset (remaining ord ws rs) = mset (filter (\<lambda>w. ID w \<notin> ID ` set rs) ws)"
proof -
  have "remaining ord ws rs =
        map snd (visit ord (filter (\<lambda>(k, p). k \<notin> ID ` set rs) (map (\<lambda>p. (ID p, p)) ws)))"
    by (simp add: remaining_def participantMapToSlice_def impl_of_fold_delete
          participantSliceToMap_distinct[OF assms])
  then have "mset (remaining ord ws rs) =
        image_mset snd (mset (filter (\<lambda>(k, p). k \<notin> ID ` set rs) (map (\<lambda>p. (ID p, p)) ws)))"
    by (simp add: mset_visit)
  also have "\<dots> = mset (filter (\<lambda>w. ID w \<notin> ID ` set rs) ws)"
    by (simp add: filter_map comp_def flip: mset_map) 
  finally show ?thesis .
qed

lemma Revoke_eq:
  assumes "DAList.lookup (prizes d) prizeNo = Some prize" "1 \<le> Amount prize"
    "DAList.lookup (winners d) prizeNo = Some ws"
  shows "Revoke c d prizeNo rs =
     (if distinct (map ID rs) \<and> ID ` set rs \<subseteq> ID ` set ws
      then (None, d\<lparr>winners := DAList.update prizeNo (remaining (rangeSlice c) ws rs) (winners d)\<rparr>)
      else (Some ErrRevokedWinnerNotMatch, d))"
  using assms
  by (simp add: Revoke_def revokeLoop_eq participantSliceToMap_keys remaining_def)

subsection \<open>Concrete sessions\<close>

lemma abcSession_eq:
  "abcSession = \<lparr>name = ''s'', prizes = DAList.update 1 (prizeP 2) DAList.empty,
                 participants = abcMap, winners = DAList.empty\<rparr>"
  by (simp add: abcSession_def abcRows_def LoadParticipantsCSV_def SetPrize_def New_def)

lemma abcMap_impl: "DAList.impl_of abcMap = [(''a'', pA), (''b'', pB), (''c'', pC)]"
  by (simp add: update.rep_eq empty.rep_eq)

lemma abc_availableParticipants:
  "availableParticipants firstChoices
     \<lparr>name = nm, prizes = ps, participants = abcMap, winners = DAList.empty\<rparr> n = [pA, pB, pC]"
  by (simp add: availableParticipants_eq firstChoices_def abcMap_impl winnerIDs_def empty.rep_eq)

lemma draw_first_2: "draw (randSeq firstChoices) 2 [pA, pB, pC] = Some [pA, pC]"
  by (simp add: firstChoices_def draw_def draw_loop.simps Intn_def removeParticipant_def)


lemma drawnSession_eq:
  "drawnSession = \<lparr>name = ''s'', prizes = DAList.update 1 (prizeP 2) DAList.empty,
                   participants = abcMap, winners = DAList.update 1 [pA, pC] DAList.empty\<rparr>"
  by (simp add: drawnSession_def abcSession_eq Draw_def abc_availableParticipants draw_first_2)


lemma roomySession_eq:
  "roomySession = \<lparr>name = ''s'', prizes = DAList.update 1 (prizeP 3) DAList.empty,
                   participants = abcMap, winners = DAList.update 1 [pA, pC] DAList.empty\<rparr>"
  by (simp add: roomySession_def drawnSession_eq SetPrize_def)

lemma tightSession_eq:
  "tightSession = \<lparr>name = ''s'', prizes = DAList.update 1 (prizeP 1) DAList.empty,
                   participants = abcMap, winners = DAList.update 1 [pA, pC] DAList.empty\<rparr>"
  by (simp add: tightSession_def drawnSession_eq SetPrize_def)

lemma drawn_availableParticipants:
  "availableParticipants firstChoices
     \<lparr>name = nm, prizes = ps, participants = abcMap,
      winners = DAList.update 1 [pA, pC] DAList.empty\<rparr> n = [pB]"
  by (simp add: availableParticipants_eq firstChoices_def abcMap_impl winnerIDs_def
        update.rep_eq empty.rep_eq)

text \<open>
  Claim C3, as amended. For a registered prize with an amount of at least 1 and a winners
  entry, \<open>Revoke\<close> fails with \<open>ErrRevokedWinnerNotMatch\<close> and leaves the session exactly as it
  was when some revoked ID is not the ID of a current winner of the prize, or when the
  revoked list names an ID twice. When the revoked IDs are pairwise different and all are
  IDs of current winners, it succeeds and only the prize's winners entry changes: it holds
  previous winners only, one per remaining ID, the remaining IDs being the previous ones
  minus the revoked ones; when the previous winners had pairwise different IDs it holds
  exactly the previous winners whose ID is not revoked. The entry stays present, possibly
  empty.
\<close>

theorem Revoke_outcome:
  assumes "DAList.lookup (prizes d) prizeNo = Some prize" and "1 \<le> Amount prize"
    and "DAList.lookup (winners d) prizeNo = Some ws"
  shows "(\<not> (distinct (map ID rs) \<and> ID ` set rs \<subseteq> ID ` set ws) \<longrightarrow>
            Revoke c d prizeNo rs = (Some ErrRevokedWinnerNotMatch, d)) \<and>
         (distinct (map ID rs) \<and> ID ` set rs \<subseteq> ID ` set ws \<longrightarrow>
            (\<exists>ws'. Revoke c d prizeNo rs =
                     (None, d\<lparr>winners := DAList.update prizeNo ws' (winners d)\<rparr>) \<and>
                   set ws' \<subseteq> set ws \<and> distinct (map ID ws') \<and>
                   ID ` set ws' = ID ` set ws - ID ` set rs \<and>
                   (distinct (map ID ws) \<longrightarrow>
                      mset ws' = mset (filter (\<lambda>w. ID w \<notin> ID ` set rs) ws))))"
proof (intro conjI impI)
  assume "\<not> (distinct (map ID rs) \<and> ID ` set rs \<subseteq> ID ` set ws)"
  then show "Revoke c d prizeNo rs = (Some ErrRevokedWinnerNotMatch, d)"
    using Revoke_eq[OF assms, of c rs] by simp
next
  assume ok: "distinct (map ID rs) \<and> ID ` set rs \<subseteq> ID ` set ws"
  let ?ws' = "remaining (rangeSlice c) ws rs"
  have "Revoke c d prizeNo rs = (None, d\<lparr>winners := DAList.update prizeNo ?ws' (winners d)\<rparr>)"
    using Revoke_eq[OF assms, of c rs] ok by simp
  moreover have "distinct (map ID ws) \<longrightarrow> mset ?ws' = mset (filter (\<lambda>w. ID w \<notin> ID ` set rs) ws)"
    by (simp add: remaining_distinct)
  ultimately show "\<exists>ws'. Revoke c d prizeNo rs =
                     (None, d\<lparr>winners := DAList.update prizeNo ws' (winners d)\<rparr>) \<and>
                   set ws' \<subseteq> set ws \<and> distinct (map ID ws') \<and>
                   ID ` set ws' = ID ` set ws - ID ` set rs \<and>
                   (distinct (map ID ws) \<longrightarrow>
                      mset ws' = mset (filter (\<lambda>w. ID w \<notin> ID ` set rs) ws))"
    using remaining_props[of "rangeSlice c" ws rs] by blast
qed

theorem Revoke_outcome_witness:
  "Revoke firstChoices drawnSession 1 [pB] = (Some ErrRevokedWinnerNotMatch, drawnSession) \<and>
   (\<exists>ws'. Revoke firstChoices drawnSession 1 [pA] =
            (None, drawnSession\<lparr>winners := DAList.update 1 ws' (winners drawnSession)\<rparr>) \<and>
          set ws' \<subseteq> {pA, pC} \<and> distinct (map ID ws') \<and> ID ` set ws' = {''c''} \<and>
          mset ws' = {#pC#})"
proof -
  have p: "DAList.lookup (prizes drawnSession) 1 = Some (prizeP 2)"
    by (simp add: drawnSession_eq)
  have a: "1 \<le> Amount (prizeP 2)" by simp
  have w: "DAList.lookup (winners drawnSession) 1 = Some [pA, pC]"
    by (simp add: drawnSession_eq)
  show ?thesis
    using Revoke_outcome[OF p a w, of "[pB]" firstChoices]
      Revoke_outcome[OF p a w, of "[pA]" firstChoices]
    by simp
qed

text \<open>
  The claim as stated fails on a revoked list that repeats an ID: every ID in
  \<open>[pA, pA]\<close> is the ID of a current winner of prize 1, and \<open>Revoke\<close> fails.
\<close>

theorem Revoke_repeated_id_counterexample:
  "DAList.lookup (prizes drawnSession) 1 = Some (prizeP 2) \<and>
   DAList.lookup (winners drawnSession) 1 = Some [pA, pC] \<and>
   ID ` set [pA, pA] \<subseteq> ID ` set [pA, pC] \<and>
   Revoke firstChoices drawnSession 1 [pA, pA] = (Some ErrRevokedWinnerNotMatch, drawnSession)"
  by (simp add: drawnSession_eq Revoke_def participantSliceToMap_def lookup_update)


section \<open>Redraw\<close>

lemma Redraw_success:
  assumes "Redraw c d prizeNo n = (Inr ws, d')"
  shows "\<exists>prize old. DAList.lookup (prizes d) prizeNo = Some prize \<and> 1 \<le> Amount prize \<and>
           DAList.lookup (winners d) prizeNo = Some old \<and>
           n \<le> Amount prize - int (length old) \<and>
           draw (randSeq c) n (availableParticipants c d prizeNo) = Some ws \<and>
           d' = d\<lparr>winners := DAList.update prizeNo (old @ ws) (winners d)\<rparr>"
  using assms
  by (auto simp: Redraw_def Let_def split: option.splits if_splits)



lemma draw_first_1: "draw (randSeq firstChoices) 1 [pB] = Some [pB]"
  by (simp add: firstChoices_def draw_def draw_loop.simps Intn_def removeParticipant_def)

lemma Redraw_roomy:
  "Redraw firstChoices roomySession 1 1 =
     (Inr [pB], roomySession\<lparr>winners := DAList.update 1 [pA, pC, pB] DAList.empty\<rparr>)"
  by (simp add: roomySession_eq Redraw_def drawn_availableParticipants draw_first_1 Let_def)



text \<open>
  Claim C7, as amended. For a registered prize with an amount of at least 1 and a winners
  entry, \<open>Redraw\<close> fails with \<open>ErrRedrawPrizeAmount\<close>, leaving the session unchanged, whenever
  the requested amount exceeds the prize's amount minus its current number of winners. After
  every successful \<open>Redraw\<close> with a requested amount of at least 0 the prize's number of
  winners is at most its amount.
\<close>

theorem Redraw_capacity:
  "(\<forall>prize old. DAList.lookup (prizes d) prizeNo = Some prize \<and> 1 \<le> Amount prize \<and>
      DAList.lookup (winners d) prizeNo = Some old \<and> Amount prize - int (length old) < n \<longrightarrow>
        Redraw c d prizeNo n = (Inl ErrRedrawPrizeAmount, d)) \<and>
   (\<forall>ws d'. Redraw c d prizeNo n = (Inr ws, d') \<and> 0 \<le> n \<longrightarrow>
      (\<exists>prize. DAList.lookup (prizes d') prizeNo = Some prize \<and>
              int (length (Winners d' prizeNo)) \<le> Amount prize))"
proof (intro conjI allI impI)
  fix prize old
  assume "DAList.lookup (prizes d) prizeNo = Some prize \<and> 1 \<le> Amount prize \<and>
      DAList.lookup (winners d) prizeNo = Some old \<and> Amount prize - int (length old) < n"
  then show "Redraw c d prizeNo n = (Inl ErrRedrawPrizeAmount, d)"
    by (simp add: Redraw_def)
next
  fix ws d' assume a: "Redraw c d prizeNo n = (Inr ws, d') \<and> 0 \<le> n"
  from Redraw_success[of c d prizeNo n ws d'] a obtain prize old where
    p: "DAList.lookup (prizes d) prizeNo = Some prize"
    and o: "DAList.lookup (winners d) prizeNo = Some old"
    and le: "n \<le> Amount prize - int (length old)"
    and dr: "draw (randSeq c) n (availableParticipants c d prizeNo) = Some ws"
    and d': "d' = d\<lparr>winners := DAList.update prizeNo (old @ ws) (winners d)\<rparr>"
    by blast
  from draw_result[of "randSeq c" n "availableParticipants c d prizeNo"] dr
  have "length ws = (if n \<le> 0 then 0 else min (nat n) (length (availableParticipants c d prizeNo)))"
    by simp
  then have "int (length ws) \<le> n" using a by (auto simp: min_def split: if_splits)
  then have "int (length (old @ ws)) \<le> Amount prize" using le by simp
  moreover have "Winners d' prizeNo = old @ ws" by (simp add: Winners_def d')
  moreover have "DAList.lookup (prizes d') prizeNo = Some prize" by (simp add: d' p)
  ultimately show "\<exists>prize. DAList.lookup (prizes d') prizeNo = Some prize \<and>
              int (length (Winners d' prizeNo)) \<le> Amount prize" by simp
qed

theorem Redraw_capacity_witness:
  "Redraw firstChoices drawnSession 1 1 = (Inl ErrRedrawPrizeAmount, drawnSession) \<and>
   Redraw firstChoices roomySession 1 1 =
     (Inr [pB], roomySession\<lparr>winners := DAList.update 1 [pA, pC, pB] DAList.empty\<rparr>) \<and>
   (\<exists>prize. DAList.lookup
             (prizes (roomySession\<lparr>winners := DAList.update 1 [pA, pC, pB] DAList.empty\<rparr>)) 1 =
             Some prize \<and>
           int (length (Winners
             (roomySession\<lparr>winners := DAList.update 1 [pA, pC, pB] DAList.empty\<rparr>) 1))
             \<le> Amount prize)"
  using Redraw_capacity[of drawnSession 1 1 firstChoices]
    Redraw_capacity[of roomySession 1 1 firstChoices]
  by (simp add: Redraw_roomy) (simp add: drawnSession_eq)

text \<open>
  The claim as stated fails for a negative requested amount: prize 1 has amount 1 and two
  winners (its amount was lowered after the draw), \<open>Redraw\<close> with \<open>-1\<close> passes the capacity
  check (\<open>-1 > 1 - 2\<close> is false), draws nobody and succeeds, with 2 winners for amount 1.
\<close>

theorem Redraw_negative_counterexample:
  "DAList.lookup (prizes tightSession) 1 = Some (prizeP 1) \<and>
   Redraw firstChoices tightSession 1 (- 1) =
     (Inr [], tightSession\<lparr>winners := DAList.update 1 [pA, pC] DAList.empty\<rparr>) \<and>
   length (Winners (snd (Redraw firstChoices tightSession 1 (- 1))) 1) = 2"
  by (simp add: tightSession_eq Redraw_def drawn_availableParticipants draw_def Winners_def Let_def)

section \<open>ClearWinners and the drawn state\<close>

lemma winners_LoadPrizesCSV: "winners (snd (LoadPrizesCSV d r)) = winners d"
  by (simp add: LoadPrizesCSV_def split: sum.splits prod.splits)

lemma winners_LoadParticipantsCSV: "winners (snd (LoadParticipantsCSV d r)) = winners d"
  by (simp add: LoadParticipantsCSV_def split: sum.splits prod.splits)

lemma winners_Draw:
  "winners (snd (Draw c d p)) = winners d \<or>
   (\<exists>ws. winners (snd (Draw c d p)) = DAList.update p ws (winners d))"
  by (auto simp: Draw_def Let_def split: option.splits)

lemma winners_Revoke:
  "winners (snd (Revoke c d p rs)) = winners d \<or>
   (\<exists>ws. winners (snd (Revoke c d p rs)) = DAList.update p ws (winners d))"
  by (auto simp: Revoke_def split: option.splits sum.splits)

lemma winners_Redraw:
  "winners (snd (Redraw c d p n)) = winners d \<or>
   (\<exists>ws. winners (snd (Redraw c d p n)) = DAList.update p ws (winners d))"
  by (auto simp: Redraw_def Let_def split: option.splits)

lemma lookup_update_keeps:
  "DAList.lookup m q \<noteq> None \<Longrightarrow> DAList.lookup (DAList.update p v m) q \<noteq> None"
  by (simp add: lookup_update)

text \<open>
  Claim C9. \<open>ClearWinners\<close> stores an empty winners entry for the prize number it is given,
  registered or not, drawn or not. A \<open>Draw\<close> on a registered prize with an amount of at least
  1 right after it therefore fails with \<open>ErrWinnersExistBeforeDraw\<close>. No operation among
  \<open>SetPrize\<close>, \<open>LoadPrizesCSV\<close>, \<open>LoadParticipantsCSV\<close>, \<open>Draw\<close>, \<open>Revoke\<close>, \<open>Redraw\<close> and
  \<open>ClearWinners\<close> removes a winners entry; \<open>ClearAllWinners\<close> removes all of them, and a
  successful \<open>Load\<close> replaces the winners map by the record's.
\<close>

theorem ClearWinners_marks_drawn:
  "DAList.lookup (winners (ClearWinners d p)) p = Some [] \<and>
   (\<forall>prize. DAList.lookup (prizes d) p = Some prize \<and> 1 \<le> Amount prize \<longrightarrow>
      Draw c (ClearWinners d p) p = (Inl ErrWinnersExistBeforeDraw, ClearWinners d p)) \<and>
   (DAList.lookup (winners d) q \<noteq> None \<longrightarrow>
      DAList.lookup (winners (SetPrize d no nm amount desc)) q \<noteq> None \<and>
      DAList.lookup (winners (snd (LoadPrizesCSV d r1))) q \<noteq> None \<and>
      DAList.lookup (winners (snd (LoadParticipantsCSV d r2))) q \<noteq> None \<and>
      DAList.lookup (winners (snd (Draw c d p))) q \<noteq> None \<and>
      DAList.lookup (winners (snd (Revoke c d p rs))) q \<noteq> None \<and>
      DAList.lookup (winners (snd (Redraw c d p n))) q \<noteq> None \<and>
      DAList.lookup (winners (ClearWinners d p)) q \<noteq> None) \<and>
   DAList.lookup (winners (ClearAllWinners d)) q = None \<and>
   (hexX (computeWinnersHash md5 ord (SaveData.Winners data)) = Checksum data \<longrightarrow>
      winners (snd (Load md5 ord d (Inr data))) =
        (case SaveData.Winners data of None \<Rightarrow> DAList.empty | Some m \<Rightarrow> m))"
proof (intro conjI allI impI)
  show "DAList.lookup (winners (ClearWinners d p)) p = Some []"
    by (simp add: ClearWinners_def)
next
  fix prize assume "DAList.lookup (prizes d) p = Some prize \<and> 1 \<le> Amount prize"
  then show "Draw c (ClearWinners d p) p = (Inl ErrWinnersExistBeforeDraw, ClearWinners d p)"
    by (simp add: Draw_def ClearWinners_def)
next
  assume q: "DAList.lookup (winners d) q \<noteq> None"
  show "DAList.lookup (winners (SetPrize d no nm amount desc)) q \<noteq> None"
    using q by (simp add: SetPrize_def)
  show "DAList.lookup (winners (snd (LoadPrizesCSV d r1))) q \<noteq> None"
    using q by (simp add: winners_LoadPrizesCSV)
  show "DAList.lookup (winners (snd (LoadParticipantsCSV d r2))) q \<noteq> None"
    using q by (simp add: winners_LoadParticipantsCSV)
  show "DAList.lookup (winners (snd (Draw c d p))) q \<noteq> None"
    using q winners_Draw[of c d p] lookup_update_keeps by metis
  show "DAList.lookup (winners (snd (Revoke c d p rs))) q \<noteq> None"
    using q winners_Revoke[of c d p rs] lookup_update_keeps by metis
  show "DAList.lookup (winners (snd (Redraw c d p n))) q \<noteq> None"
    using q winners_Redraw[of c d p n] lookup_update_keeps by metis
  show "DAList.lookup (winners (ClearWinners d p)) q \<noteq> None"
    using q by (simp add: ClearWinners_def lookup_update)
next
  show "DAList.lookup (winners (ClearAllWinners d)) q = None"
    by (simp add: ClearAllWinners_def)
next
  assume "hexX (computeWinnersHash md5 ord (SaveData.Winners data)) = Checksum data"
  then show "winners (snd (Load md5 ord d (Inr data))) =
        (case SaveData.Winners data of None \<Rightarrow> DAList.empty | Some m \<Rightarrow> m)"
    by (simp add: Load_def Let_def)
qed

theorem ClearWinners_marks_drawn_witness:
  "DAList.lookup (winners abcSession) 1 = None \<and>
   DAList.lookup (winners (ClearWinners abcSession 1)) 1 = Some [] \<and>
   Draw firstChoices (ClearWinners abcSession 1) 1 =
     (Inl ErrWinnersExistBeforeDraw, ClearWinners abcSession 1) \<and>
   DAList.lookup (winners (SetPrize drawnSession 2 ''q'' 1 [])) 1 \<noteq> None \<and>
   DAList.lookup (winners (snd (LoadPrizesCSV drawnSession (Inr [])))) 1 \<noteq> None \<and>
   DAList.lookup (winners (snd (LoadParticipantsCSV drawnSession (Inr [])))) 1 \<noteq> None \<and>
   DAList.lookup (winners (snd (Draw firstChoices drawnSession 1))) 1 \<noteq> None \<and>
   DAList.lookup (winners (snd (Revoke firstChoices drawnSession 1 [pA, pC]))) 1 \<noteq> None \<and>
   DAList.lookup (winners (snd (Redraw firstChoices drawnSession 1 0))) 1 \<noteq> None \<and>
   DAList.lookup (winners (ClearWinners drawnSession 1)) 1 \<noteq> None \<and>
   DAList.lookup (winners (ClearAllWinners drawnSession)) 1 = None \<and>
   winners (snd (Load (\<lambda>bs. bs) [] drawnSession
     (Inr \<lparr>SaveData.Name = ''s'', Prizes = None, Participants = None, Winners = None,
           LastUpdated = [], Checksum = []\<rparr>))) = DAList.empty"
proof -
  have c: "hexX (computeWinnersHash (\<lambda>bs. bs) []
             (SaveData.Winners \<lparr>SaveData.Name = ''s'', Prizes = None, Participants = None,
                Winners = None, LastUpdated = [], Checksum = []\<rparr>)) =
           Checksum \<lparr>SaveData.Name = ''s'', Prizes = None, Participants = None,
                Winners = None, LastUpdated = [], Checksum = []\<rparr>"
    by (simp add: computeWinnersHash_def winnersBytes_def hexX_def)
  have a: "DAList.lookup (prizes abcSession) 1 = Some (prizeP 2) \<and> 1 \<le> Amount (prizeP 2)"
    by (simp add: abcSession_eq)
  have n: "DAList.lookup (winners abcSession) 1 = None" by (simp add: abcSession_eq)
  have w: "DAList.lookup (winners drawnSession) 1 \<noteq> None" by (simp add: drawnSession_eq)
  from ClearWinners_marks_drawn[of abcSession 1 firstChoices 1 0 "[]" 0 "[]" "Inr []" "Inr []" "[]" 0] a
  have 1: "DAList.lookup (winners (ClearWinners abcSession 1)) 1 = Some [] \<and>
     Draw firstChoices (ClearWinners abcSession 1) 1 =
     (Inl ErrWinnersExistBeforeDraw, ClearWinners abcSession 1)" by blast
  from ClearWinners_marks_drawn[of drawnSession 1 firstChoices 1 2 "''q''" 1 "[]" "Inr []" "Inr []"
      "[pA, pC]" 0 "\<lambda>bs. bs" "[]"
      "\<lparr>SaveData.Name = ''s'', Prizes = None, Participants = None, Winners = None,
           LastUpdated = [], Checksum = []\<rparr>"] w c
  show ?thesis using 1 n by simp
qed

section \<open>Load and the checksum\<close>

lemma sort_keys_visit: "sort (map fst (visit ord es)) = sort (map (fst :: int \<times> 'b \<Rightarrow> int) es)"
proof -
  have "mset (sort (map fst (visit ord es))) = mset (map fst es)"
    by (simp add: mset_visit)
  then show ?thesis by (metis properties_for_sort sorted_sort)
qed

lemma winnersBytes_any_order: "winnersBytes ord w = winnersBytes [] w"
  by (simp add: winnersBytes_def sort_keys_visit)

text \<open>
  Claim C4. \<open>Load\<close> recomputes the checksum over the record's winners, whatever the order
  in which the run time visits the map. When it differs from the stored checksum, \<open>Load\<close>
  fails with \<open>ErrChecksum\<close> and the session is unchanged. When it matches, the three maps
  are replaced by the record's, a nil map becoming an empty one.
\<close>

theorem Load_outcome:
  "(hexX (md5 (winnersBytes [] (SaveData.Winners data))) \<noteq> Checksum data \<longrightarrow>
      Load md5 ord d (Inr data) = (Some ErrChecksum, d)) \<and>
   (hexX (md5 (winnersBytes [] (SaveData.Winners data))) = Checksum data \<longrightarrow>
      Load md5 ord d (Inr data) =
        (None,
         d\<lparr>prizes := (case Prizes data of None \<Rightarrow> DAList.empty | Some m \<Rightarrow> m),
           participants := (case Participants data of None \<Rightarrow> DAList.empty | Some m \<Rightarrow> m),
           winners := (case SaveData.Winners data of None \<Rightarrow> DAList.empty | Some m \<Rightarrow> m)\<rparr>))"
  by (simp add: Load_def Let_def computeWinnersHash_def winnersBytes_any_order[of ord])

lemma Load_Save:
  "Load md5 ord d (Inr (Save md5 ord' tm s)) =
     (None, d\<lparr>prizes := prizes s, participants := participants s, winners := winners s\<rparr>)"
  by (simp add: Load_def Save_def Let_def computeWinnersHash_def winnersBytes_any_order[of ord]
        winnersBytes_any_order[of ord'])

lemma FormatInt_1: "FormatInt 1 = ''1''"
  by (simp add: FormatInt_def, subst digitsOf.simps) simp

lemma drawn_bytes: "winnersBytes [] (Some (winners drawnSession)) = ''1aAcC''"
  by (simp add: winnersBytes_def drawnSession_eq update.rep_eq empty.rep_eq FormatInt_1)

lemma hex_drawn: "hexX ''1aAcC'' = ''3161416343''"
  by (simp add: hexX_def)

theorem Load_outcome_witness:
  "Load plainDigest [] (New ''t'')
     (Inr \<lparr>SaveData.Name = ''s'', Prizes = None, Participants = Some abcMap,
           Winners = Some (winners drawnSession), LastUpdated = [],
           Checksum = ''00''\<rparr>) = (Some ErrChecksum, New ''t'') \<and>
   Load plainDigest [] (New ''t'')
     (Inr \<lparr>SaveData.Name = ''s'', Prizes = None, Participants = Some abcMap,
           Winners = Some (winners drawnSession), LastUpdated = [],
           Checksum = ''3161416343''\<rparr>) =
     (None, \<lparr>name = ''t'', prizes = DAList.empty, participants = abcMap,
             winners = winners drawnSession\<rparr>)"
  using
    Load_outcome[of plainDigest "\<lparr>SaveData.Name = ''s'', Prizes = None, Participants = Some abcMap,
           Winners = Some (winners drawnSession), LastUpdated = [],
           Checksum = ''00''\<rparr>" "[]" "New ''t''"]
    Load_outcome[of plainDigest "\<lparr>SaveData.Name = ''s'', Prizes = None, Participants = Some abcMap,
           Winners = Some (winners drawnSession), LastUpdated = [],
           Checksum = ''3161416343''\<rparr>" "[]" "New ''t''"]
  by (simp add: plainDigest_def drawn_bytes hex_drawn New_def)

section \<open>Bulk load of prizes\<close>



lemma loadPrizeRows_bad:
  "loadPrizeRows (bad # rest) m =
     (if length bad \<noteq> 4 then (Some ErrParticipantsCSV, m)
      else case Atoi (Trim (bad ! 0) '' '') of
             Inl e \<Rightarrow> (Some e, m)
           | Inr no \<Rightarrow>
               (case Atoi (Trim (bad ! 2) '' '') of
                  Inl e \<Rightarrow> (Some e, m)
                | Inr amount \<Rightarrow>
                    loadPrizeRows rest
                      (DAList.update no
                         \<lparr>No = no, Prize.Name = bad ! 1, Amount = amount, Desc = bad ! 3\<rparr> m)))"
  by simp





end
